theory Spec2Isabelle
  imports Main "HOL-Library.Word"
begin

section \<open>Bytes, strings and errors\<close>

text \<open>
  A \<open>Uint8Array\<close> or \<open>Buffer\<close> is a list of bytes, a JavaScript string of ASCII
  characters is a \<open>string\<close>, a \<open>BigInt\<close> is an \<open>int\<close>. An exception is the left
  summand of a result.
\<close>

type_synonym byte = "8 word"

datatype error = Error string | SyntaxError string | BaseError string

text \<open>\<open>bytes.slice(a, b)\<close> and \<open>bytes.slice(a)\<close> for indices that are not negative:
  both ends are clamped to the length.\<close>

definition slice_js :: "'a list \<Rightarrow> nat \<Rightarrow> nat \<Rightarrow> 'a list" where
  "slice_js bytes a b = take (b - a) (drop a bytes)"

definition slice_from :: "'a list \<Rightarrow> nat \<Rightarrow> 'a list" where
  "slice_from bytes a = drop a bytes"

subsection \<open>Hexadecimal digits\<close>

definition hexdigit :: "nat \<Rightarrow> char" where
  "hexdigit n = ''0123456789abcdef'' ! n"

text \<open>The value of a hexadecimal digit, by character code: \<open>0-9\<close>, \<open>A-F\<close>, \<open>a-f\<close>.\<close>

definition unhex :: "char \<Rightarrow> nat option" where
  "unhex c =
     (let n = (of_char c :: nat) in
      if 48 \<le> n \<and> n \<le> 57 then Some (n - 48)
      else if 65 \<le> n \<and> n \<le> 70 then Some (n - 55)
      else if 97 \<le> n \<and> n \<le> 102 then Some (n - 87)
      else None)"

text \<open>\<open>Buffer.from(chunk).toString("hex")\<close>: two lower-case digits for each byte.\<close>

definition toString_hex :: "byte list \<Rightarrow> string" where
  "toString_hex bytes =
     concat (map (\<lambda>b. [hexdigit (unat b div 16), hexdigit (unat b mod 16)]) bytes)"

fun parse_hex :: "int \<Rightarrow> string \<Rightarrow> int option" where
  "parse_hex acc [] = Some acc"
| "parse_hex acc (c # cs) =
     (case unhex c of None \<Rightarrow> None | Some d \<Rightarrow> parse_hex (acc * 16 + int d) cs)"

text \<open>\<open>BigInt(`0x${h}`)\<close>: the digits \<open>h\<close> read in base 16; a \<open>SyntaxError\<close> when
  \<open>h\<close> is empty or has a character that is no hexadecimal digit.\<close>

definition BigInt_0x :: "string \<Rightarrow> error + int" where
  "BigInt_0x h =
     (if h = [] then Inl (SyntaxError ''Cannot convert 0x to a BigInt'')
      else case parse_hex 0 h of
             None \<Rightarrow> Inl (SyntaxError ''Cannot convert to a BigInt'')
           | Some v \<Rightarrow> Inr v)"

section \<open>Byte arrays as Starknet calldata\<close>

definition bytesToFelt :: "byte list \<Rightarrow> error + int" where
  "bytesToFelt chunk =
     (if length chunk > 31 then Inl (Error ''Chunk too large for bytes31'')
      else let hex = toString_hex chunk
           in BigInt_0x (if hex = [] then ''0'' else hex))"

text \<open>The \<open>for\<close> loop of \<open>bytesToByteArrayCalldata\<close>, from the index \<open>i\<close> with the
  field elements pushed so far.\<close>

function dataFelts_loop :: "byte list \<Rightarrow> nat \<Rightarrow> nat \<Rightarrow> int list \<Rightarrow> error + int list" where
  "dataFelts_loop bytes fullChunks i dataFelts =
     (if i < fullChunks then
        (case bytesToFelt (slice_js bytes (i * 31) ((i + 1) * 31)) of
           Inl e \<Rightarrow> Inl e
         | Inr f \<Rightarrow> dataFelts_loop bytes fullChunks (i + 1) (dataFelts @ [f]))
      else Inr dataFelts)"
  by pat_completeness auto
termination
  by (relation "measure (\<lambda>(bytes, fullChunks, i, dataFelts). fullChunks - i)") auto

definition bytesToByteArrayCalldata :: "byte list \<Rightarrow> error + int list" where
  "bytesToByteArrayCalldata bytes =
     (let fullChunks = length bytes div 31 in
      case dataFelts_loop bytes fullChunks 0 [] of
        Inl e \<Rightarrow> Inl e
      | Inr dataFelts \<Rightarrow>
          (let pending = slice_from bytes (fullChunks * 31) in
           case bytesToFelt pending of
             Inl e \<Rightarrow> Inl e
           | Inr p \<Rightarrow> Inr ([int (length dataFelts)] @ dataFelts @ [p, int (length pending)])))"

text \<open>The integer that a byte sequence denotes, most significant byte first.\<close>

definition be_value :: "byte list \<Rightarrow> int" where
  "be_value bytes = foldl (\<lambda>acc b. acc * 256 + uint b) 0 bytes"

text \<open>The chunk of index \<open>k\<close>: 31 bytes from the offset \<open>31 * k\<close>.\<close>

definition chunk_at :: "byte list \<Rightarrow> nat \<Rightarrow> byte list" where
  "chunk_at bytes k = take 31 (drop (k * 31) bytes)"

text \<open>Reading a field element back as \<open>n\<close> bytes, most significant first, with its
  leading zero bytes.\<close>

fun feltToBytes :: "nat \<Rightarrow> int \<Rightarrow> byte list" where
  "feltToBytes 0 v = []"
| "feltToBytes (Suc n) v = feltToBytes n (v div 256) @ [word_of_int (v mod 256)]"

text \<open>The decoder of the round-trip law: the first element counts the full chunks, each
  of them is read back as 31 bytes, and the element before the last is read back as the
  number of bytes that the last element gives.\<close>

definition byteArrayCalldataToBytes :: "int list \<Rightarrow> byte list option" where
  "byteArrayCalldataToBytes felts =
     (case felts of
        [] \<Rightarrow> None
      | len # rest \<Rightarrow>
          (if len < 0 then None
           else if length rest = nat len + 2 then
             (let pending_word = rest ! nat len; pending_len = rest ! (nat len + 1) in
              if pending_len < 0 then None
              else if pending_len < 31 then
                Some (concat (map (feltToBytes 31) (take (nat len) rest))
                      @ feltToBytes (nat pending_len) pending_word)
              else None)
           else None))"

section \<open>Addresses as 32-byte values\<close>

text \<open>\<open>str.startsWith(p)\<close>, \<open>str.slice(2)\<close> is \<open>drop 2\<close>, and \<open>str.padStart(n, "0")\<close>
  for a filler of one character.\<close>

definition startsWith :: "string \<Rightarrow> string \<Rightarrow> bool" where
  "startsWith str p = (take (length p) str = p)"

definition padStart :: "nat \<Rightarrow> char \<Rightarrow> string \<Rightarrow> string" where
  "padStart n c str = replicate (n - length str) c @ str"

text \<open>The helper of the Base to Ethereum script.\<close>

definition toBytes32Address :: "string \<Rightarrow> string" where
  "toBytes32Address address = ''0x000000000000000000000000'' @ drop 2 address"

text \<open>The helper of the Base to Starknet script.\<close>

definition toBytes32 :: "string \<Rightarrow> string" where
  "toBytes32 hex =
     (let clean = (if startsWith hex ''0x'' then drop 2 hex else hex)
      in ''0x'' @ padStart 64 (CHR ''0'') clean)"

section \<open>Decoding an envelope\<close>

subsection \<open>The library decoders\<close>

text \<open>
  viem's \<open>hexToBytes\<close>: the first two characters are cut off as the \<open>0x\<close> prefix
  without a look at them, a string of odd length gets a leading \<open>0\<close>, and each pair of
  digits gives one byte; a character that is no hexadecimal digit raises.
\<close>

fun hexToBytes_loop :: "string \<Rightarrow> error + byte list" where
  "hexToBytes_loop (l # r # rest) =
     (case unhex l of
        None \<Rightarrow> Inl (BaseError ''Invalid byte sequence'')
      | Some nibbleLeft \<Rightarrow>
          (case unhex r of
             None \<Rightarrow> Inl (BaseError ''Invalid byte sequence'')
           | Some nibbleRight \<Rightarrow>
               (case hexToBytes_loop rest of
                  Inl e \<Rightarrow> Inl e
                | Inr bytes \<Rightarrow> Inr (of_nat (nibbleLeft * 16 + nibbleRight) # bytes))))"
| "hexToBytes_loop _ = Inr []"

definition hexToBytes :: "string \<Rightarrow> error + byte list" where
  "hexToBytes hex =
     (let hexString = drop 2 hex
      in hexToBytes_loop (if odd (length hexString) then CHR ''0'' # hexString else hexString))"

text \<open>
  Node's \<open>Buffer.from(str, "hex")\<close>: one byte for each pair of digits, up to the first
  pair that has a character that is no hexadecimal digit; a last single character is
  dropped. It never raises.
\<close>

fun Buffer_from_hex :: "string \<Rightarrow> byte list" where
  "Buffer_from_hex (a # b # rest) =
     (case unhex a of
        None \<Rightarrow> []
      | Some x \<Rightarrow>
          (case unhex b of
             None \<Rightarrow> []
           | Some y \<Rightarrow> of_nat (x * 16 + y) # Buffer_from_hex rest))"
| "Buffer_from_hex _ = []"

text \<open>
  Node's \<open>Buffer.from(str, "base64")\<close>: the standard and the URL-safe alphabet are both
  read, a character outside them is skipped, decoding stops at the first \<open>=\<close>, and a
  last group of two or three digits gives one or two bytes. It never raises.
\<close>

definition unbase64 :: "char \<Rightarrow> nat option" where
  "unbase64 c =
     (let n = (of_char c :: nat) in
      if 65 \<le> n \<and> n \<le> 90 then Some (n - 65)
      else if 97 \<le> n \<and> n \<le> 122 then Some (n - 71)
      else if 48 \<le> n \<and> n \<le> 57 then Some (n + 4)
      else if n = 43 then Some 62
      else if n = 45 then Some 62
      else if n = 47 then Some 63
      else if n = 95 then Some 63
      else None)"

fun sextets_to_bytes :: "nat list \<Rightarrow> byte list" where
  "sextets_to_bytes (a # b # c # d # rest) =
     [of_nat (a * 4 + b div 16), of_nat (b mod 16 * 16 + c div 4), of_nat (c mod 4 * 64 + d)]
     @ sextets_to_bytes rest"
| "sextets_to_bytes [a, b, c] = [of_nat (a * 4 + b div 16), of_nat (b mod 16 * 16 + c div 4)]"
| "sextets_to_bytes [a, b] = [of_nat (a * 4 + b div 16)]"
| "sextets_to_bytes _ = []"

definition sextets :: "string \<Rightarrow> nat list" where
  "sextets str = List.map_filter unbase64 (takeWhile (\<lambda>c. c \<noteq> CHR ''='') str)"

definition Buffer_from_base64 :: "string \<Rightarrow> byte list" where
  "Buffer_from_base64 str = sextets_to_bytes (sextets str)"

subsection \<open>The two copies of \<open>decodeEnvelope\<close>\<close>

text \<open>The test \<open>/^[0-9a-fA-F]+$/.test(str)\<close>: the string is not empty and all of its
  characters are hexadecimal digits.\<close>

definition test_hex :: "string \<Rightarrow> bool" where
  "test_hex str = (str \<noteq> [] \<and> list_all (\<lambda>c. unhex c \<noteq> None) str)"

text \<open>\<open>str.replace(/^0x/, "")\<close>.\<close>

definition replace_0x :: "string \<Rightarrow> string" where
  "replace_0x str = (if startsWith str ''0x'' then drop 2 str else str)"

text \<open>The copy of \<open>transfer-base-to-starknet.js\<close>, on viem's \<open>hexToBytes\<close>.\<close>

definition decodeEnvelope :: "string \<Rightarrow> error + byte list" where
  "decodeEnvelope str =
     (let isHex = (startsWith str ''0x'' \<or> test_hex str)
      in if isHex then hexToBytes str else Inr (Buffer_from_base64 str))"

text \<open>The copy of the Solana to Starknet script, on \<open>Buffer.from\<close>; no branch of it
  raises.\<close>

definition decodeEnvelope_solana :: "string \<Rightarrow> byte list" where
  "decodeEnvelope_solana str =
     (let isHex = (startsWith str ''0x'' \<or> test_hex str)
      in if isHex then Buffer_from_hex (replace_0x str) else Buffer_from_base64 str)"

subsection \<open>The two encodings of a payload\<close>

text \<open>The hexadecimal form of a payload, as the attestation service writes it: \<open>0x\<close> and
  two digits for each byte.\<close>

definition hex_encoding :: "byte list \<Rightarrow> string" where
  "hex_encoding payload = ''0x'' @ toString_hex payload"

text \<open>The base64 form of a payload (RFC 4648, with padding). The digit of a value
  below 64 is taken from the alphabet \<open>A-Z\<close>, \<open>a-z\<close>, \<open>0-9\<close>, \<open>+\<close>, \<open>/\<close> by character
  code.\<close>

definition b64digit :: "nat \<Rightarrow> char" where
  "b64digit n =
     (if n < 26 then char_of (65 + n)
      else if n < 52 then char_of (71 + n)
      else if n < 62 then char_of (n - 4)
      else if n = 62 then CHR ''+''
      else CHR ''/'')"

fun base64_encoding :: "byte list \<Rightarrow> string" where
  "base64_encoding (a # b # c # rest) =
     [b64digit (unat a div 4), b64digit (unat a mod 4 * 16 + unat b div 16),
      b64digit (unat b mod 16 * 4 + unat c div 64), b64digit (unat c mod 64)]
     @ base64_encoding rest"
| "base64_encoding [a, b] =
     [b64digit (unat a div 4), b64digit (unat a mod 4 * 16 + unat b div 16),
      b64digit (unat b mod 16 * 4), CHR ''='']"
| "base64_encoding [a] =
     [b64digit (unat a div 4), b64digit (unat a mod 4 * 16), CHR ''='', CHR ''='']"
| "base64_encoding [] = []"

section \<open>Polling the attestation service\<close>

text \<open>
  An entry of the \<open>messages\<close> array of the service's answer, and the answer itself:
  \<open>axios.get\<close> either rejects with an error that has a message, or resolves with a
  response whose \<open>data\<close> may be missing and whose \<open>messages\<close> may be missing or empty.
\<close>

record iris_message =
  status :: string
  message :: string
  attestation :: string

record iris_data =
  messages :: "iris_message list option"

datatype axios_result = Rejected string | Resolved "iris_data option"

text \<open>
  What a run does to the outside: the transactions handed to the wallet clients, the
  URLs requested, the delays waited (in milliseconds) and the lines logged, each in
  order.
\<close>

datatype chain = BaseSepolia | Sepolia

datatype abi_value = Uint256 int | Uint32 int | Address string | Bytes32 string | Bytes string

datatype calldata = EncodeFunctionData string "abi_value list"

record tx_request =
  tx_to :: string
  tx_data :: calldata

record world =
  calls :: "(chain \<times> tx_request) list"
  requests :: "string list"
  slept :: "nat list"
  console :: "string list"

definition console_log :: "string \<Rightarrow> world \<Rightarrow> world" where
  "console_log line w = w\<lparr>console := console w @ [line]\<rparr>"

definition setTimeout :: "nat \<Rightarrow> world \<Rightarrow> world" where
  "setTimeout ms w = w\<lparr>slept := slept w @ [ms]\<rparr>"

text \<open>\<open>response.data?.messages?.[0]\<close>.\<close>

definition first_message :: "iris_data option \<Rightarrow> iris_message option" where
  "first_message data =
     (case data of
        None \<Rightarrow> None
      | Some d \<Rightarrow>
          (case messages d of
             None \<Rightarrow> None
           | Some [] \<Rightarrow> None
           | Some (m # rest) \<Rightarrow> Some m))"

text \<open>
  The body of the \<open>try\<close> block on the outcome of \<open>axios.get\<close>: \<open>Inl\<close> is what it
  throws, \<open>Inr (Some m)\<close> is the \<open>return\<close> of \<open>m\<close>, and \<open>Inr None\<close> is the end of the
  block.
\<close>

definition try_block :: "axios_result \<Rightarrow> world \<Rightarrow> (error + iris_message option) \<times> world" where
  "try_block outcome w =
     (case outcome of
        Rejected msg \<Rightarrow> (Inl (Error msg), w)
      | Resolved data \<Rightarrow>
          (case first_message data of
             None \<Rightarrow> (Inr None, console_log ''   Not ready yet, retrying in 5s...'' w)
           | Some m \<Rightarrow>
               (if status m = ''complete''
                then (Inr (Some m), console_log ''   Attestation ready.'' w)
                else (Inr None, console_log ''   Not ready yet, retrying in 5s...'' w))))"

fun err_message :: "error \<Rightarrow> string" where
  "err_message (Error msg) = msg"
| "err_message (SyntaxError msg) = msg"
| "err_message (BaseError msg) = msg"

text \<open>
  The \<open>while (true)\<close> loop. The service is a function from the URL and the number of
  requests made before to the outcome of the request. A run that never leaves the loop
  has no result: the value \<open>None\<close>.
\<close>

partial_function (option) poll_loop ::
  "(string \<Rightarrow> nat \<Rightarrow> axios_result) \<Rightarrow> string \<Rightarrow> world \<Rightarrow> (iris_message \<times> world) option" where
  "poll_loop axios_get url w =
     (case try_block (axios_get url (length (requests w))) (w\<lparr>requests := requests w @ [url]\<rparr>) of
        (Inr (Some m), w1) \<Rightarrow> Some (m, w1)
      | (Inr None, w1) \<Rightarrow> poll_loop axios_get url (setTimeout 5000 w1)
      | (Inl err, w1) \<Rightarrow>
          poll_loop axios_get url
            (setTimeout 5000
               (console_log (''   Iris polling error: '' @ err_message err @ '' (retrying in 5s)...'') w1)))"

definition BASE_DOMAIN :: string where
  "BASE_DOMAIN = ''6''"

definition iris_url :: "string \<Rightarrow> string" where
  "iris_url srcTxHash =
     ''https://iris-api-sandbox.circle.com/v2/messages/'' @ BASE_DOMAIN
     @ ''?transactionHash='' @ srcTxHash"

definition retrieveAttestation ::
  "(string \<Rightarrow> nat \<Rightarrow> axios_result) \<Rightarrow> string \<Rightarrow> world \<Rightarrow> (iris_message \<times> world) option" where
  "retrieveAttestation axios_get srcTxHash w =
     poll_loop axios_get (iris_url srcTxHash)
       (console_log ''3) Waiting for attestation from Circle Iris...'' w)"

text \<open>An outcome on which the loop returns: a response whose first message has the
  status \<open>complete\<close>.\<close>

definition is_complete :: "axios_result \<Rightarrow> bool" where
  "is_complete outcome =
     (case outcome of
        Rejected msg \<Rightarrow> False
      | Resolved data \<Rightarrow>
          (case first_message data of None \<Rightarrow> False | Some m \<Rightarrow> status m = ''complete''))"

section \<open>The pipeline from Base to Ethereum\<close>

definition BASE_SEPOLIA_USDC :: string where
  "BASE_SEPOLIA_USDC = ''0x036CbD53842c5426634e7929541eC2318f3dCF7e''"

definition TOKEN_MESSENGER_V2 :: string where
  "TOKEN_MESSENGER_V2 = ''0x8FE6B999Dc680CcFDD5Bf7EB0974218be2542DAA''"

definition MESSAGE_TRANSMITTER_V2 :: string where
  "MESSAGE_TRANSMITTER_V2 = ''0xE737e5cEBEEBa77EFE34D4aa090756590b1CE275''"

definition ETHEREUM_DOMAIN :: int where
  "ETHEREUM_DOMAIN = 0"

definition AMOUNT :: int where
  "AMOUNT = 100000"

definition maxFee :: int where
  "maxFee = 500"

definition minFinalityThreshold :: int where
  "minFinalityThreshold = 1000"

definition DESTINATION_CALLER_BYTES32 :: string where
  "DESTINATION_CALLER_BYTES32 =
     ''0x0000000000000000000000000000000000000000000000000000000000000000''"

text \<open>What the script reads at load time: the address of the account of the private
  key, and the variable \<open>DESTINATION_ADDRESS\<close> of the environment when it is set.\<close>

record config =
  account_address :: string
  env_DESTINATION_ADDRESS :: "string option"

definition DESTINATION_ADDRESS :: "config \<Rightarrow> string" where
  "DESTINATION_ADDRESS cfg =
     (case env_DESTINATION_ADDRESS cfg of
        None \<Rightarrow> account_address cfg
      | Some a \<Rightarrow> (if a = [] then account_address cfg else a))"

text \<open>
  \<open>client.sendTransaction({to, data})\<close> on a wallet client: the call is recorded, and
  the client, a function of the number of earlier calls, the chain and the
  transaction, gives the transaction hash or throws.
\<close>

definition client_send ::
  "(nat \<Rightarrow> chain \<Rightarrow> tx_request \<Rightarrow> error + string) \<Rightarrow> chain \<Rightarrow> tx_request \<Rightarrow> world
     \<Rightarrow> (error + string) \<times> world" where
  "client_send sendTransaction c tx w =
     (sendTransaction (length (calls w)) c tx, w\<lparr>calls := calls w @ [(c, tx)]\<rparr>)"

definition approveUSDC ::
  "(nat \<Rightarrow> chain \<Rightarrow> tx_request \<Rightarrow> error + string) \<Rightarrow> world \<Rightarrow> (error + unit) \<times> world" where
  "approveUSDC sendTransaction w =
     (case client_send sendTransaction BaseSepolia
             \<lparr>tx_to = BASE_SEPOLIA_USDC,
              tx_data = EncodeFunctionData ''approve''
                          [Address TOKEN_MESSENGER_V2, Uint256 10000000000]\<rparr>
             (console_log ''1) Approving USDC on Base Sepolia...'' w) of
        (Inl e, w1) \<Rightarrow> (Inl e, w1)
      | (Inr approveTx, w1) \<Rightarrow> (Inr (), console_log (''   USDC approve tx: '' @ approveTx) w1))"

definition burnUSDC ::
  "config \<Rightarrow> (nat \<Rightarrow> chain \<Rightarrow> tx_request \<Rightarrow> error + string) \<Rightarrow> world
     \<Rightarrow> (error + string) \<times> world" where
  "burnUSDC cfg sendTransaction w =
     (case client_send sendTransaction BaseSepolia
             \<lparr>tx_to = TOKEN_MESSENGER_V2,
              tx_data = EncodeFunctionData ''depositForBurn''
                          [Uint256 AMOUNT, Uint32 ETHEREUM_DOMAIN,
                           Bytes32 (toBytes32Address (DESTINATION_ADDRESS cfg)),
                           Address BASE_SEPOLIA_USDC, Bytes32 DESTINATION_CALLER_BYTES32,
                           Uint256 maxFee, Uint32 minFinalityThreshold]\<rparr>
             (console_log ''2) Burning USDC on Base Sepolia (depositForBurn)...'' w) of
        (Inl e, w1) \<Rightarrow> (Inl e, w1)
      | (Inr burnTx, w1) \<Rightarrow> (Inr burnTx, console_log (''   Burn tx: '' @ burnTx) w1))"

text \<open>The transaction of the mint stage for an entry of the service.\<close>

definition receiveMessage_tx :: "iris_message \<Rightarrow> tx_request" where
  "receiveMessage_tx entry =
     \<lparr>tx_to = MESSAGE_TRANSMITTER_V2,
      tx_data = EncodeFunctionData ''receiveMessage''
                  [Bytes (message entry), Bytes (attestation entry)]\<rparr>"

definition mintUSDC ::
  "(nat \<Rightarrow> chain \<Rightarrow> tx_request \<Rightarrow> error + string) \<Rightarrow> iris_message \<Rightarrow> world
     \<Rightarrow> (error + unit) \<times> world" where
  "mintUSDC sendTransaction entry w =
     (case client_send sendTransaction Sepolia (receiveMessage_tx entry)
             (console_log ''4) Minting USDC on Ethereum Sepolia (receiveMessage)...'' w) of
        (Inl e, w1) \<Rightarrow> (Inl e, w1)
      | (Inr mintTx, w1) \<Rightarrow> (Inr (), console_log (''   Mint tx: '' @ mintTx) w1))"

text \<open>The two lines that \<open>main\<close> logs first.\<close>

definition banner :: "config \<Rightarrow> world \<Rightarrow> world" where
  "banner cfg w =
     console_log (''Destination (Ethereum Sepolia) recipient: '' @ DESTINATION_ADDRESS cfg)
       (console_log (''Source (Base Sepolia) sender: '' @ account_address cfg) w)"

text \<open>
  \<open>main\<close>: the four stages in order. An error thrown by a stage ends the run with that
  error; a poll that never returns leaves the run without a result.
\<close>

definition main ::
  "config \<Rightarrow> (nat \<Rightarrow> chain \<Rightarrow> tx_request \<Rightarrow> error + string)
     \<Rightarrow> (string \<Rightarrow> nat \<Rightarrow> axios_result) \<Rightarrow> world \<Rightarrow> ((error + unit) \<times> world) option" where
  "main cfg sendTransaction axios_get w =
     (case approveUSDC sendTransaction (banner cfg w) of
        (Inl e, w1) \<Rightarrow> Some (Inl e, w1)
      | (Inr u, w1) \<Rightarrow>
          (case burnUSDC cfg sendTransaction w1 of
             (Inl e, w2) \<Rightarrow> Some (Inl e, w2)
           | (Inr burnTx, w2) \<Rightarrow>
               (case retrieveAttestation axios_get burnTx w2 of
                  None \<Rightarrow> None
                | Some (entry, w3) \<Rightarrow>
                    (case mintUSDC sendTransaction entry w3 of
                       (Inl e, w4) \<Rightarrow> Some (Inl e, w4)
                     | (Inr u, w4) \<Rightarrow>
                         Some (Inr (),
                               console_log
                                 ([CHR 0xE2, CHR 0x9C, CHR 0x85]
                                  @ '' Transfer complete: 0.1 USDC bridged Base ''
                                  @ [CHR 0xE2, CHR 0x86, CHR 0x92]
                                  @ '' Ethereum (Sepolia)'') w4)))))"

text \<open>The world before a run, and the mocks of the end-to-end scenario: a client that
  accepts every transaction with the hash \<open>0xAA\<close>, and a service that has the complete
  entry for that hash at once.\<close>

definition initial_world :: world where
  "initial_world = \<lparr>calls = [], requests = [], slept = [], console = []\<rparr>"

definition mock_config :: config where
  "mock_config =
     \<lparr>account_address = ''0x1c7D4B196Cb0C7B01d743Fbc6116a902379C7238'',
      env_DESTINATION_ADDRESS = None\<rparr>"

definition mock_entry :: iris_message where
  "mock_entry = \<lparr>status = ''complete'', message = ''0x0102'', attestation = ''0x0304''\<rparr>"

definition mock_sendTransaction :: "nat \<Rightarrow> chain \<Rightarrow> tx_request \<Rightarrow> error + string" where
  "mock_sendTransaction i c tx = Inr ''0xAA''"

definition mock_axios_get :: "string \<Rightarrow> nat \<Rightarrow> axios_result" where
  "mock_axios_get url i =
     (if url = ''https://iris-api-sandbox.circle.com/v2/messages/6?transactionHash=0xAA''
      then Resolved (Some \<lparr>messages = Some [mock_entry]\<rparr>)
      else Rejected ''Request failed with status code 404'')"

text \<open>A service that fails twice and then has the complete entry, and one that always
  fails.\<close>

definition flaky_axios_get :: "string \<Rightarrow> nat \<Rightarrow> axios_result" where
  "flaky_axios_get url i =
     (if i < 2 then Rejected ''Network Error''
      else Resolved (Some \<lparr>messages = Some [mock_entry]\<rparr>))"

definition down_axios_get :: "string \<Rightarrow> nat \<Rightarrow> axios_result" where
  "down_axios_get url i = Rejected ''Network Error''"

text \<open>A service whose first message is pending twice and complete at the third
  request.\<close>

definition pending_entry :: iris_message where
  "pending_entry = \<lparr>status = ''pending'', message = [], attestation = []\<rparr>"

definition slow_axios_get :: "string \<Rightarrow> nat \<Rightarrow> axios_result" where
  "slow_axios_get url i =
     (if i < 2 then Resolved (Some \<lparr>messages = Some [pending_entry]\<rparr>)
      else Resolved (Some \<lparr>messages = Some [mock_entry]\<rparr>))"

section \<open>Packing one chunk\<close>

lemma unhex_hexdigit: "n < 16 \<Longrightarrow> unhex (hexdigit n) = Some n"
proof -
  have "list_all (\<lambda>n. unhex (hexdigit n) = Some n) [0..<16]"
    by code_simp
  moreover assume "n < 16"
  ultimately show ?thesis
    by (simp add: list_all_iff)
qed

lemma parse_hex_byte:
  "parse_hex acc (hexdigit (unat b div 16) # hexdigit (unat b mod 16) # cs)
     = parse_hex (acc * 256 + uint (b :: byte)) cs"
proof -
  have lt: "unat b < 256"
    using unsigned_less [of b, where ?'a = nat] by simp
  then have hi: "unat b div 16 < 16" by simp
  have lo: "unat b mod 16 < 16" by simp
  have "unat b div 16 * 16 + unat b mod 16 = unat b"
    by simp
  then have "int (unat b div 16 * 16 + unat b mod 16) = uint b"
    by (simp only: uint_nat)
  then have "int (unat b div 16) * 16 + int (unat b mod 16) = uint b"
    by (simp only: of_nat_add of_nat_mult of_nat_numeral)
  moreover have "\<And>h l u :: int. h * 16 + l = u \<Longrightarrow> (acc * 16 + h) * 16 + l = acc * 256 + u"
    by (simp add: algebra_simps)
  ultimately have eq:
    "(acc * 16 + int (unat b div 16)) * 16 + int (unat b mod 16) = acc * 256 + uint b"
    by blast
  show ?thesis
    by (simp only: parse_hex.simps unhex_hexdigit [OF hi] unhex_hexdigit [OF lo] option.case eq)
qed

lemma parse_hex_toString_hex:
  "parse_hex acc (toString_hex bytes) = Some (foldl (\<lambda>acc b. acc * 256 + uint b) acc bytes)"
  unfolding toString_hex_def
  by (induction bytes arbitrary: acc) (simp_all add: parse_hex_byte del: parse_hex.simps(2))

lemma toString_hex_Nil: "toString_hex bytes = [] \<longleftrightarrow> bytes = []"
  by (cases bytes) (simp_all add: toString_hex_def)

lemma bytesToFelt_small: "length chunk \<le> 31 \<Longrightarrow> bytesToFelt chunk = Inr (be_value chunk)"
  by (cases chunk) (simp_all add: bytesToFelt_def BigInt_0x_def be_value_def toString_hex_Nil
      parse_hex_toString_hex unhex_def Let_def)

section \<open>The encoding of a byte array\<close>

lemma length_slice_js: "length (slice_js bytes (i * 31) ((i + 1) * 31)) \<le> 31"
  by (simp add: slice_js_def)

lemma slice_js_chunk: "slice_js bytes (i * 31) ((i + 1) * 31) = chunk_at bytes i"
  by (simp add: slice_js_def chunk_at_def)

lemma length_chunk_at_full:
  "k < length bytes div 31 \<Longrightarrow> length (chunk_at bytes k) = 31"
proof -
  assume "k < length bytes div 31"
  then have "(k + 1) * 31 \<le> length bytes div 31 * 31"
    by simp
  also have "\<dots> \<le> length bytes"
    by simp
  finally have "(k + 1) * 31 \<le> length bytes" .
  then show ?thesis by (simp add: chunk_at_def)
qed

lemma dataFelts_loop_eq:
  "dataFelts_loop bytes fullChunks i acc
     = Inr (acc @ map (\<lambda>k. be_value (chunk_at bytes k)) [i..<fullChunks])"
proof (induction bytes fullChunks i acc rule: dataFelts_loop.induct)
  case (1 bytes fullChunks i dataFelts)
  show ?case
  proof (cases "i < fullChunks")
    case True
    have felt: "bytesToFelt (slice_js bytes (i * 31) ((i + 1) * 31)) = Inr (be_value (chunk_at bytes i))"
      using bytesToFelt_small [OF length_slice_js] by (simp only: slice_js_chunk)
    have "dataFelts_loop bytes fullChunks i dataFelts
            = dataFelts_loop bytes fullChunks (i + 1) (dataFelts @ [be_value (chunk_at bytes i)])"
      using True felt by (subst dataFelts_loop.simps) simp
    also have "\<dots> = Inr ((dataFelts @ [be_value (chunk_at bytes i)])
                        @ map (\<lambda>k. be_value (chunk_at bytes k)) [i + 1..<fullChunks])"
      using "1.IH" [OF True felt] .
    finally show ?thesis
      using True by (simp add: upt_conv_Cons)
  next
    case False
    then show ?thesis
      by (subst dataFelts_loop.simps) simp
  qed
qed

lemma bytesToByteArrayCalldata_eq:
  "bytesToByteArrayCalldata bytes
     = Inr (int (length bytes div 31)
            # map (\<lambda>k. be_value (chunk_at bytes k)) [0..<length bytes div 31]
            @ [be_value (drop (length bytes div 31 * 31) bytes), int (length bytes mod 31)])"
proof -
  have "length (drop (length bytes div 31 * 31) bytes) = length bytes mod 31"
    by (simp add: minus_mult_div_eq_mod mult.commute)
  moreover from this have "length (drop (length bytes div 31 * 31) bytes) \<le> 31"
    by simp
  ultimately show ?thesis
    by (simp add: bytesToByteArrayCalldata_def Let_def dataFelts_loop_eq slice_from_def
        bytesToFelt_small del: dataFelts_loop.simps)
qed

lemma be_value_snoc: "be_value (bs @ [b]) = be_value bs * 256 + uint b"
  by (simp add: be_value_def)

lemma feltToBytes_be_value: "feltToBytes (length bs) (be_value bs) = bs"
proof (induction bs rule: rev_induct)
  case Nil
  then show ?case by simp
next
  case (snoc b bs)
  have "0 \<le> uint b" "uint b < 256" using uint_lt2p [of b] by simp_all
  then have "(be_value bs * 256 + uint b) div 256 = be_value bs"
    and "(be_value bs * 256 + uint b) mod 256 = uint b"
    by simp_all
  with snoc show ?case
    by (simp add: be_value_snoc)
qed

lemma concat_chunks: "concat (map (chunk_at bs) [0..<q]) = take (q * 31) bs"
proof (induction q)
  case 0
  then show ?case by simp
next
  case (Suc q)
  have "take (q * 31) bs @ take 31 (drop (q * 31) bs) = take (q * 31 + 31) bs"
    by (simp add: take_add)
  with Suc show ?case
    by (simp add: chunk_at_def add.commute)
qed


lemma length_pending: "length (drop (length bytes div 31 * 31) bytes) = length bytes mod 31"
  by (simp add: minus_mult_div_eq_mod mult.commute)

lemma decode_chunks:
  "concat (map (feltToBytes 31) (map (\<lambda>k. be_value (chunk_at bytes k)) [0..<length bytes div 31]))
     = take (length bytes div 31 * 31) bytes"
proof -
  have "map (feltToBytes 31) (map (\<lambda>k. be_value (chunk_at bytes k)) [0..<length bytes div 31])
          = map (chunk_at bytes) [0..<length bytes div 31]"
  proof (simp only: map_map, rule map_cong [OF refl])
    fix k assume "k \<in> set [0..<length bytes div 31]"
    then have "length (chunk_at bytes k) = 31"
      by (simp add: length_chunk_at_full)
    then show "(feltToBytes 31 \<circ> (\<lambda>k. be_value (chunk_at bytes k))) k = chunk_at bytes k"
      using feltToBytes_be_value [of "chunk_at bytes k"] by simp
  qed
  then show ?thesis
    by (simp only: concat_chunks)
qed

lemma decode_encoded:
  "byteArrayCalldataToBytes
     (int (length bytes div 31)
      # map (\<lambda>k. be_value (chunk_at bytes k)) [0..<length bytes div 31]
      @ [be_value (drop (length bytes div 31 * 31) bytes), int (length bytes mod 31)])
   = Some bytes"
proof -
  let ?q = "length bytes div 31"
  let ?data = "map (\<lambda>k. be_value (chunk_at bytes k)) [0..<?q]"
  let ?p = "be_value (drop (?q * 31) bytes)"
  let ?rest = "?data @ [?p, int (length bytes mod 31)]"
  have len: "length ?data = ?q" by simp
  have n0: "?rest ! ?q = ?p"
    using nth_append_length [of ?data ?p "[int (length bytes mod 31)]"] by (simp only: len)
  have n1: "?rest ! (?q + 1) = int (length bytes mod 31)"
    using nth_append_length_plus [of ?data "[?p, int (length bytes mod 31)]" 1] by (simp only: len) simp
  have tk: "take ?q ?rest = ?data"
    by simp
  have pend: "feltToBytes (length bytes mod 31) ?p = drop (?q * 31) bytes"
    using feltToBytes_be_value [of "drop (?q * 31) bytes"] by (simp only: length_pending)
  have "byteArrayCalldataToBytes (int ?q # ?rest)
          = Some (concat (map (feltToBytes 31) ?data) @ feltToBytes (length bytes mod 31) ?p)"
    unfolding byteArrayCalldataToBytes_def
    by (simp only: list.case nat_int n0 n1 tk Let_def) simp
  also have "\<dots> = Some (take (?q * 31) bytes @ drop (?q * 31) bytes)"
    by (simp only: decode_chunks pend)
  finally show ?thesis by simp
qed

section \<open>Claims on the calldata encoding\<close>

text \<open>
  Claim C7. \<open>bytesToFelt\<close> throws exactly when its chunk is longer than 31 bytes, and
  the error is then \<open>Chunk too large for bytes31\<close>; on every chunk of at most 31 bytes,
  the empty one included, it returns the integer that the bytes denote, most significant
  byte first.
\<close>

theorem bytesToFelt_throws_iff:
  "(bytesToFelt chunk = Inl (Error ''Chunk too large for bytes31'') \<longleftrightarrow> length chunk > 31)
   \<and> ((\<exists>e. bytesToFelt chunk = Inl e) \<longleftrightarrow> length chunk > 31)
   \<and> (length chunk \<le> 31 \<longrightarrow> bytesToFelt chunk = Inr (be_value chunk))"
proof (cases "length chunk > 31")
  case True
  then show ?thesis by (simp add: bytesToFelt_def)
next
  case False
  then have "bytesToFelt chunk = Inr (be_value chunk)"
    by (simp add: bytesToFelt_small)
  with False show ?thesis by simp
qed

theorem bytesToFelt_throws_iff_witness:
  "length [1, 255 :: byte] \<le> 31 \<and> bytesToFelt [1, 255] = Inr 511
   \<and> length (replicate 32 (0 :: byte)) > 31
   \<and> bytesToFelt (replicate 32 0) = Inl (Error ''Chunk too large for bytes31'')
   \<and> bytesToFelt [] = Inr 0"
  using bytesToFelt_throws_iff [of "[1, 255]"] bytesToFelt_throws_iff [of "replicate 32 0"]
    bytesToFelt_throws_iff [of "[]"]
  by (simp add: be_value_def)

text \<open>
  Claim C3. For a byte sequence of length \<open>N\<close>, \<open>bytesToByteArrayCalldata\<close> returns
  \<open>N div 31 + 3\<close> field elements: the number \<open>N div 31\<close> of full chunks, the value of
  each full chunk of 31 bytes in order, the value of the trailing partial chunk, and the
  length \<open>N mod 31\<close> of that chunk.
\<close>

theorem bytesToByteArrayCalldata_layout:
  "bytesToByteArrayCalldata bytes
     = Inr (int (length bytes div 31)
            # map (\<lambda>k. be_value (chunk_at bytes k)) [0..<length bytes div 31]
            @ [be_value (drop (length bytes div 31 * 31) bytes), int (length bytes mod 31)])
   \<and> (\<exists>felts. bytesToByteArrayCalldata bytes = Inr felts
          \<and> length felts = length bytes div 31 + 3)"
  by (simp add: bytesToByteArrayCalldata_eq)

text \<open>
  Claim C1. The round-trip law: the encoding of every byte sequence decodes to that
  sequence, when each full-chunk element is read back as 31 bytes and the pending
  element as the number of bytes that the last element gives.
\<close>

theorem bytesToByteArrayCalldata_roundtrip:
  "\<exists>felts. bytesToByteArrayCalldata bytes = Inr felts
      \<and> byteArrayCalldataToBytes felts = Some bytes"
  using decode_encoded [of bytes] by (simp only: bytesToByteArrayCalldata_eq) blast

text \<open>
  Claim C9. Every chunk that \<open>bytesToByteArrayCalldata\<close> hands to \<open>bytesToFelt\<close> has at
  most 31 bytes: the slice of each loop index below the number of full chunks has exactly
  31, and the pending slice has \<open>N mod 31\<close>, which is below 31. So the encoding never
  throws, and the empty sequence encodes to the three elements 0, 0, 0.
\<close>

theorem bytesToByteArrayCalldata_never_throws:
  "(\<forall>k < length bytes div 31. length (slice_js bytes (k * 31) ((k + 1) * 31)) = 31)
   \<and> length (slice_from bytes (length bytes div 31 * 31)) = length bytes mod 31
   \<and> length bytes mod 31 < 31
   \<and> (\<forall>e. bytesToByteArrayCalldata bytes \<noteq> Inl e)
   \<and> bytesToByteArrayCalldata [] = Inr [0, 0, 0]"
proof -
  have empty: "bytesToByteArrayCalldata [] = Inr [0, 0, 0]"
    by (simp add: bytesToByteArrayCalldata_eq be_value_def)
  have full: "\<forall>k < length bytes div 31. length (slice_js bytes (k * 31) ((k + 1) * 31)) = 31"
    by (simp only: slice_js_chunk) (simp add: length_chunk_at_full)
  have pending: "length (slice_from bytes (length bytes div 31 * 31)) = length bytes mod 31"
    by (simp only: slice_from_def length_pending)
  have "\<forall>e. bytesToByteArrayCalldata bytes \<noteq> Inl e"
    by (simp only: bytesToByteArrayCalldata_eq) simp
  with empty full pending show ?thesis
    by simp
qed

theorem bytesToByteArrayCalldata_never_throws_witness:
  "(0 :: nat) < length (replicate 33 (7 :: byte)) div 31
   \<and> length (slice_js (replicate 33 (7 :: byte)) (0 * 31) ((0 + 1) * 31)) = 31
   \<and> length (slice_from (replicate 33 (7 :: byte)) (length (replicate 33 (7 :: byte)) div 31 * 31)) = 2
   \<and> (\<forall>e. bytesToByteArrayCalldata (replicate 33 7) \<noteq> Inl e)"
  using bytesToByteArrayCalldata_never_throws [of "replicate 33 7"]
  by simp
section \<open>Padding an address\<close>

lemma hexToBytes_loop_zero:
  "hexToBytes_loop (CHR ''0'' # CHR ''0'' # str)
     = (case hexToBytes_loop str of Inl e \<Rightarrow> Inl e | Inr bytes \<Rightarrow> Inr (0 # bytes))"
  by (simp add: unhex_def split: sum.split)

lemma hexToBytes_loop_digits:
  "list_all (\<lambda>c. unhex c \<noteq> None) str \<Longrightarrow> even (length str)
     \<Longrightarrow> \<exists>bytes. hexToBytes_loop str = Inr bytes \<and> 2 * length bytes = length str"
proof (induction str rule: hexToBytes_loop.induct)
  case (1 l r rest)
  then obtain x y where "unhex l = Some x" "unhex r = Some y"
    by auto
  moreover from 1 this obtain bytes where "hexToBytes_loop rest = Inr bytes" "2 * length bytes = length rest"
    by auto
  ultimately show ?case by simp
qed simp_all

lemma toBytes32_address:
  "length h = 40 \<Longrightarrow> toBytes32 (''0x'' @ h) = ''0x000000000000000000000000'' @ h"
proof -
  assume "length h = 40"
  moreover have "replicate 24 (CHR ''0'') = ''000000000000000000000000''"
    by code_simp
  ultimately show ?thesis
    by (simp add: toBytes32_def startsWith_def padStart_def)
qed

lemma hexToBytes_padded:
  "hexToBytes_loop h = Inr addr \<Longrightarrow> even (length h)
     \<Longrightarrow> hexToBytes (''0x000000000000000000000000'' @ h) = Inr (replicate 12 0 @ addr)"
proof -
  assume h: "hexToBytes_loop h = Inr addr" "even (length h)"
  have "replicate 12 (0 :: byte) = [0, 0, 0, 0, 0, 0, 0, 0, 0, 0, 0, 0]"
    by code_simp
  with h show ?thesis
    by (simp add: hexToBytes_def hexToBytes_loop_zero del: hexToBytes_loop.simps)
qed

text \<open>
  Claim C4. For an address of \<open>0x\<close> and 40 hexadecimal digits, the padding helper
  returns the hexadecimal form of 32 bytes: the first 12 are zero and the last 20 are the
  bytes of the address. The helper of the Starknet script returns the same string on
  such an address.
\<close>

theorem toBytes32Address_padding:
  assumes "length h = 40" and "list_all (\<lambda>c. unhex c \<noteq> None) h"
  shows "\<exists>addr padded.
           hexToBytes (''0x'' @ h) = Inr addr \<and> length addr = 20
         \<and> hexToBytes (toBytes32Address (''0x'' @ h)) = Inr padded
         \<and> toBytes32 (''0x'' @ h) = toBytes32Address (''0x'' @ h)
         \<and> length padded = 32
         \<and> drop 12 padded = addr
         \<and> take 12 padded = replicate 12 0"
proof -
  from assms obtain addr where addr: "hexToBytes_loop h = Inr addr" "2 * length addr = length h"
    using hexToBytes_loop_digits [of h] by auto
  with assms have len: "length addr = 20" by simp
  have "hexToBytes (''0x'' @ h) = Inr addr"
    using addr assms by (simp add: hexToBytes_def)
  moreover have "toBytes32Address (''0x'' @ h) = ''0x000000000000000000000000'' @ h"
    by (simp add: toBytes32Address_def)
  moreover from this have "hexToBytes (toBytes32Address (''0x'' @ h)) = Inr (replicate 12 0 @ addr)"
    using hexToBytes_padded [OF addr(1)] assms by simp
  moreover have "toBytes32 (''0x'' @ h) = ''0x000000000000000000000000'' @ h"
    using assms by (simp only: toBytes32_address)
  ultimately show ?thesis
    using len by simp
qed

theorem toBytes32Address_padding_witness:
  "length ''036CbD53842c5426634e7929541eC2318f3dCF7e'' = 40
   \<and> list_all (\<lambda>c. unhex c \<noteq> None) ''036CbD53842c5426634e7929541eC2318f3dCF7e''
   \<and> (\<exists>addr padded.
         hexToBytes ''0x036CbD53842c5426634e7929541eC2318f3dCF7e'' = Inr addr \<and> length addr = 20
       \<and> hexToBytes (toBytes32Address ''0x036CbD53842c5426634e7929541eC2318f3dCF7e'') = Inr padded
       \<and> toBytes32 ''0x036CbD53842c5426634e7929541eC2318f3dCF7e''
           = toBytes32Address ''0x036CbD53842c5426634e7929541eC2318f3dCF7e''
       \<and> length padded = 32 \<and> drop 12 padded = addr \<and> take 12 padded = replicate 12 0)"
proof -
  have a: "length ''036CbD53842c5426634e7929541eC2318f3dCF7e'' = 40"
    by simp
  have b: "list_all (\<lambda>c. unhex c \<noteq> None) ''036CbD53842c5426634e7929541eC2318f3dCF7e''"
    by (simp add: unhex_def)
  show ?thesis
    using a b toBytes32Address_padding [OF a b] by (simp only: append.simps)
qed
section \<open>Decoding what was encoded\<close>

lemma join_first: "y < 256 \<Longrightarrow> (x div 4) * 4 + ((x mod 4) * 16 + y div 16) div 16 = (x::nat)"
proof -
  assume "y < 256"
  then have "y div 16 < 16" by simp
  then have "((x mod 4) * 16 + y div 16) div 16 = x mod 4" by simp
  then show ?thesis by simp
qed

lemma join_mid: "z < 256 \<Longrightarrow> y < 256 \<Longrightarrow> (((x mod 4) * 16 + y div 16) mod 16) * 16 + ((y mod 16) * 4 + z div 64) div 4 = (y::nat)"
proof -
  assume "z < 256" "y < 256"
  then have a: "y div 16 < 16" and b: "z div 64 < 4" by simp_all
  from a have "((x mod 4) * 16 + y div 16) mod 16 = y div 16" by simp
  moreover from b have "((y mod 16) * 4 + z div 64) div 4 = y mod 16" by simp
  ultimately show ?thesis by simp
qed

lemma join_third: "z < 256 \<Longrightarrow> (((y mod 16) * 4 + z div 64) mod 4) * 64 + z mod 64 = (z::nat)"
proof -
  assume "z < 256"
  then have b: "z div 64 < 4" by simp
  then have "((y mod 16) * 4 + z div 64) mod 4 = z div 64" by simp
  then show ?thesis by simp
qed

lemma join_mid_last: "y < 256 \<Longrightarrow> (((x mod 4) * 16 + y div 16) mod 16) * 16 + ((y mod 16) * 4) div 4 = (y::nat)"
proof -
  assume "y < 256"
  then have a: "y div 16 < 16" by simp
  from a have "((x mod 4) * 16 + y div 16) mod 16 = y div 16" by simp
  then show ?thesis by simp
qed

lemma join_first_last: "(x div 4) * 4 + ((x mod 4) * 16) div 16 = (x::nat)"
  by simp


lemma unbase64_b64digit:
  assumes "n < 64"
  shows "unbase64 (b64digit n) = Some n \<and> b64digit n \<noteq> CHR ''=''"
proof -
  have dec: "unbase64 (b64digit n) = Some n"
    using assms by (auto simp add: unbase64_def b64digit_def Let_def)
  have "unbase64 (CHR ''='') = None"
    by (simp add: unbase64_def)
  with dec show ?thesis by auto
qed

lemma sextets_digit: "n < 64 \<Longrightarrow> sextets (b64digit n # str) = n # sextets str"
  using unbase64_b64digit [of n] by (simp add: sextets_def map_filter_simps)

lemma sextets_pad: "sextets (CHR ''='' # str) = []"
  by (simp add: sextets_def map_filter_simps)

lemma sextets_Nil: "sextets [] = []"
  by (simp add: sextets_def map_filter_simps)

lemma unat_byte: "unat (b :: byte) < 256"
  using unsigned_less [of b, where ?'a = nat] by simp

lemma sextet_bounds:
  "unat (a :: byte) div 4 < 64"
  "unat (a :: byte) mod 4 * 16 + unat (b :: byte) div 16 < 64"
  "unat (a :: byte) mod 16 * 4 + unat (b :: byte) div 64 < 64"
  "unat (a :: byte) mod 64 < 64"
  "unat (a :: byte) mod 16 * 4 < 64"
  "unat (a :: byte) mod 4 * 16 < 64"
proof -
  have a: "unat a < 256" and b: "unat b < 256" by (rule unat_byte)+
  show "unat a div 4 < 64" using a by simp
  have "unat a mod 4 < 4" "unat b div 16 < 16" using b by simp_all
  then show "unat a mod 4 * 16 + unat b div 16 < 64" by linarith
  have "unat a mod 16 < 16" "unat b div 64 < 4" using b by simp_all
  then show "unat a mod 16 * 4 + unat b div 64 < 64" by linarith
  show "unat a mod 64 < 64" by simp
  have "unat a mod 16 < 16" by simp
  then show "unat a mod 16 * 4 < 64" by linarith
  have "unat a mod 4 < 4" by simp
  then show "unat a mod 4 * 16 < 64" by linarith
qed

lemma sextets_to_bytes_encoding: "sextets_to_bytes (sextets (base64_encoding payload)) = payload"
proof (induction payload rule: base64_encoding.induct)
  case (1 a b c rest)
  have "sextets (base64_encoding (a # b # c # rest))
          = unat a div 4 # (unat a mod 4 * 16 + unat b div 16)
            # (unat b mod 16 * 4 + unat c div 64) # unat c mod 64
            # sextets (base64_encoding rest)"
    by (simp add: sextets_digit sextet_bounds)
  moreover have "unat a div 4 * 4 + (unat a mod 4 * 16 + unat b div 16) div 16 = unat a"
    by (rule join_first [OF unat_byte])
  moreover have "(unat a mod 4 * 16 + unat b div 16) mod 16 * 16
                   + (unat b mod 16 * 4 + unat c div 64) div 4 = unat b"
    by (rule join_mid [OF unat_byte unat_byte])
  moreover have "(unat b mod 16 * 4 + unat c div 64) mod 4 * 64 + unat c mod 64 = unat c"
    by (rule join_third [OF unat_byte])
  ultimately show ?case
    by (simp only: sextets_to_bytes.simps "1.IH" of_nat_unat) simp
next
  case (2 a b)
  have "sextets (base64_encoding [a, b])
          = [unat a div 4, unat a mod 4 * 16 + unat b div 16, unat b mod 16 * 4]"
    by (simp add: sextets_digit sextet_bounds sextets_pad)
  moreover have "unat a div 4 * 4 + (unat a mod 4 * 16 + unat b div 16) div 16 = unat a"
    by (rule join_first [OF unat_byte])
  moreover have "(unat a mod 4 * 16 + unat b div 16) mod 16 * 16 + unat b mod 16 * 4 div 4 = unat b"
    by (rule join_mid_last [OF unat_byte])
  ultimately show ?case
    by (simp only: sextets_to_bytes.simps of_nat_unat) simp
next
  case (3 a)
  have "sextets (base64_encoding [a]) = [unat a div 4, unat a mod 4 * 16]"
    by (simp add: sextets_digit sextet_bounds sextets_pad)
  moreover have "unat a div 4 * 4 + unat a mod 4 * 16 div 16 = unat a"
    by (rule join_first_last)
  ultimately show ?case
    by (simp only: sextets_to_bytes.simps of_nat_unat) simp
next
  case 4
  then show ?case by (simp add: sextets_Nil)
qed

lemma Buffer_from_base64_encoding: "Buffer_from_base64 (base64_encoding payload) = payload"
  by (simp only: Buffer_from_base64_def sextets_to_bytes_encoding)

lemma nibble_bounds: "unat (b :: byte) div 16 < 16" "unat (b :: byte) mod 16 < 16"
  using unat_byte [of b] by simp_all

lemma hexToBytes_loop_toString_hex: "hexToBytes_loop (toString_hex payload) = Inr payload"
  unfolding toString_hex_def
  by (induction payload) (simp_all add: unhex_hexdigit nibble_bounds)

lemma Buffer_from_hex_toString_hex: "Buffer_from_hex (toString_hex payload) = payload"
  unfolding toString_hex_def
  by (induction payload) (simp_all add: unhex_hexdigit nibble_bounds)

lemma length_toString_hex: "length (toString_hex payload) = 2 * length payload"
  unfolding toString_hex_def
  by (induction payload) simp_all

lemma decodeEnvelope_hex_encoding: "decodeEnvelope (hex_encoding payload) = Inr payload"
  by (simp add: decodeEnvelope_def hex_encoding_def startsWith_def hexToBytes_def
      length_toString_hex hexToBytes_loop_toString_hex)

lemma decodeEnvelope_solana_hex_encoding: "decodeEnvelope_solana (hex_encoding payload) = payload"
  by (simp add: decodeEnvelope_solana_def hex_encoding_def startsWith_def replace_0x_def
      Buffer_from_hex_toString_hex)

section \<open>Claims on the envelope decoder\<close>

text \<open>
  Claim C2, as amended. For every payload whose base64 form the detection does not take
  for hexadecimal (it does not start with \<open>0x\<close> and is not a non-empty string of
  hexadecimal digits only), both copies of \<open>decodeEnvelope\<close> return the same bytes on
  the \<open>0x\<close>-prefixed hexadecimal form and on the base64 form of the payload, and these
  bytes are the payload.
\<close>

theorem decodeEnvelope_forms_agree:
  assumes "\<not> startsWith (base64_encoding payload) ''0x''"
    and "\<not> test_hex (base64_encoding payload)"
  shows "decodeEnvelope (hex_encoding payload) = decodeEnvelope (base64_encoding payload)
    \<and> decodeEnvelope_solana (hex_encoding payload) = decodeEnvelope_solana (base64_encoding payload)
    \<and> decodeEnvelope (base64_encoding payload) = Inr payload
    \<and> decodeEnvelope_solana (base64_encoding payload) = payload"
proof -
  have "decodeEnvelope (base64_encoding payload) = Inr payload"
    using assms by (simp add: decodeEnvelope_def Buffer_from_base64_encoding)
  moreover have "decodeEnvelope_solana (base64_encoding payload) = payload"
    using assms by (simp add: decodeEnvelope_solana_def Buffer_from_base64_encoding)
  ultimately show ?thesis
    by (simp only: decodeEnvelope_hex_encoding decodeEnvelope_solana_hex_encoding)
qed



theorem decodeEnvelope_forms_agree_witness:
  "\<not> startsWith (base64_encoding [1, 2, 3, 4]) ''0x''
   \<and> \<not> test_hex (base64_encoding [1, 2, 3, 4])
   \<and> decodeEnvelope (hex_encoding [1, 2, 3, 4]) = decodeEnvelope (base64_encoding [1, 2, 3, 4])
   \<and> decodeEnvelope (base64_encoding [1, 2, 3, 4]) = Inr [1, 2, 3, 4]"
proof -
  have enc: "base64_encoding [1, 2, 3, 4] = ''AQIDBA==''"
    by code_simp
  have a: "\<not> startsWith (base64_encoding [1, 2, 3, 4]) ''0x''"
    by (simp only: enc) (simp add: startsWith_def)
  have b: "\<not> test_hex (base64_encoding [1, 2, 3, 4])"
    by (simp only: enc) (simp add: test_hex_def unhex_def)
  show ?thesis
    using a b decodeEnvelope_forms_agree [OF a b] by (simp only:) simp
qed


text \<open>
  Claim C2, as stated, fails: the base64 form of the three bytes \<open>69 b7 1d\<close> is
  \<open>abcd\<close>, which the detection takes for hexadecimal, so the two forms of this payload
  decode to different bytes, in both copies.
\<close>

theorem decodeEnvelope_forms_differ:
  "decodeEnvelope (hex_encoding [0x69, 0xB7, 0x1D])
       \<noteq> decodeEnvelope (base64_encoding [0x69, 0xB7, 0x1D])
   \<and> decodeEnvelope_solana (hex_encoding [0x69, 0xB7, 0x1D])
       \<noteq> decodeEnvelope_solana (base64_encoding [0x69, 0xB7, 0x1D])"
proof -
  have enc: "base64_encoding [0x69, 0xB7, 0x1D] = ''abcd''"
    by code_simp
  have "decodeEnvelope ''abcd'' = Inr [0xCD]"
    by (simp add: decodeEnvelope_def startsWith_def test_hex_def hexToBytes_def unhex_def)
  moreover have "decodeEnvelope_solana ''abcd'' = [0xAB, 0xCD]"
    by (simp add: decodeEnvelope_solana_def startsWith_def test_hex_def replace_0x_def unhex_def)
  ultimately show ?thesis
    by (simp only: enc decodeEnvelope_hex_encoding decodeEnvelope_solana_hex_encoding) simp
qed

text \<open>
  Claim C10. The two copies of \<open>decodeEnvelope\<close> do not compute the same function: on
  the hexadecimal string \<open>abcd\<close> without prefix, which the detection of both accepts,
  the copy on \<open>hexToBytes\<close> loses the first byte and returns \<open>cd\<close>, the copy on
  \<open>Buffer.from\<close> returns \<open>ab cd\<close>.
\<close>

theorem decodeEnvelope_copies_differ:
  "decodeEnvelope ''abcd'' = Inr [0xCD] \<and> decodeEnvelope_solana ''abcd'' = [0xAB, 0xCD]"
  by (simp add: decodeEnvelope_def decodeEnvelope_solana_def startsWith_def test_hex_def
      hexToBytes_def replace_0x_def unhex_def)
section \<open>The polling loop\<close>

lemma poll_loop_retry:
  assumes "\<not> is_complete (axios_get url (length (requests w)))"
  shows "\<exists>w1. poll_loop axios_get url w = poll_loop axios_get url w1
           \<and> requests w1 = requests w @ [url] \<and> slept w1 = slept w @ [5000]
           \<and> calls w1 = calls w"
proof (cases "axios_get url (length (requests w))")
  case (Rejected msg)
  then show ?thesis
    by (subst poll_loop.simps)
      (simp add: try_block_def setTimeout_def console_log_def, rule exI, rule conjI, rule refl, simp)
next
  case (Resolved data)
  show ?thesis
  proof (cases "first_message data")
    case None
    with Resolved show ?thesis
      by (subst poll_loop.simps)
        (simp add: try_block_def setTimeout_def console_log_def, rule exI, rule conjI, rule refl, simp)
  next
    case (Some m)
    with Resolved assms have "status m \<noteq> ''complete''"
      by (simp add: is_complete_def)
    with Resolved Some show ?thesis
      by (subst poll_loop.simps)
        (simp add: try_block_def setTimeout_def console_log_def, rule exI, rule conjI, rule refl, simp)
  qed
qed

lemma poll_loop_return:
  assumes "axios_get url (length (requests w)) = Resolved data"
    and "first_message data = Some m" and "status m = ''complete''"
  shows "poll_loop axios_get url w
           = Some (m, console_log ''   Attestation ready.'' (w\<lparr>requests := requests w @ [url]\<rparr>))"
  using assms by (subst poll_loop.simps) (simp add: try_block_def)

lemma poll_loop_returns_at:
  assumes "\<forall>k<n. \<not> is_complete (axios_get url (length (requests w) + k))"
    and "axios_get url (length (requests w) + n) = Resolved data"
    and "first_message data = Some m" and "status m = ''complete''"
  shows "\<exists>w'. poll_loop axios_get url w = Some (m, w')
           \<and> requests w' = requests w @ replicate (Suc n) url
           \<and> slept w' = slept w @ replicate n 5000
           \<and> calls w' = calls w"
  using assms
proof (induction n arbitrary: w)
  case 0
  then show ?case
    using poll_loop_return [of axios_get url w data m] by (simp add: console_log_def)
next
  case (Suc n)
  from Suc.prems(1) have "\<not> is_complete (axios_get url (length (requests w) + 0))"
    by blast
  then have "\<not> is_complete (axios_get url (length (requests w)))"
    by simp
  then obtain w1 where w1: "poll_loop axios_get url w = poll_loop axios_get url w1"
    "requests w1 = requests w @ [url]" "slept w1 = slept w @ [5000]" "calls w1 = calls w"
    using poll_loop_retry by blast
  have "\<forall>k<n. \<not> is_complete (axios_get url (length (requests w1) + k))"
  proof (intro allI impI)
    fix k assume "k < n"
    then have "Suc k < Suc n" by simp
    with Suc.prems(1) have "\<not> is_complete (axios_get url (length (requests w) + Suc k))"
      by blast
    then show "\<not> is_complete (axios_get url (length (requests w1) + k))"
      by (simp add: w1(2))
  qed
  moreover have "axios_get url (length (requests w1) + n) = Resolved data"
    using Suc.prems(2) w1(2) by simp
  ultimately obtain w' where "poll_loop axios_get url w1 = Some (m, w')"
    "requests w' = requests w1 @ replicate (Suc n) url"
    "slept w' = slept w1 @ replicate n 5000" "calls w' = calls w1"
    using Suc.IH [of w1] Suc.prems(3,4) by blast
  with w1 show ?case
    by (simp add: replicate_app_Cons_same)
qed

lemma poll_loop_Some_complete:
  assumes "poll_loop axios_get0 url0 w0 = Some y0"
  shows "\<exists>n. is_complete (axios_get0 url0 (length (requests w0) + n))"
proof (rule poll_loop.raw_induct
    [where P = "\<lambda>g u w y. \<exists>n. is_complete (g u (length (requests w) + n))", OF _ assms],
    goal_cases)
  case (1 f axios_get url w y)
  show ?case
  proof (cases "is_complete (axios_get url (length (requests w)))")
    case True
    then have "is_complete (axios_get url (length (requests w) + 0))" by simp
    then show ?thesis by blast
  next
    case False
    have "\<exists>w1. f axios_get url w1 = Some y \<and> requests w1 = requests w @ [url]"
    proof (cases "axios_get url (length (requests w))")
      case (Rejected msg)
      let ?w1 = "setTimeout 5000
                   (console_log (''   Iris polling error: '' @ msg @ '' (retrying in 5s)...'')
                      (w\<lparr>requests := requests w @ [url]\<rparr>))"
      from Rejected 1(2) have "f axios_get url ?w1 = Some y"
        by (simp add: try_block_def)
      moreover have "requests ?w1 = requests w @ [url]"
        by (simp add: setTimeout_def console_log_def)
      ultimately show ?thesis by blast
    next
      case (Resolved data)
      let ?w1 = "setTimeout 5000
                   (console_log ''   Not ready yet, retrying in 5s...''
                      (w\<lparr>requests := requests w @ [url]\<rparr>))"
      from Resolved False have "first_message data = None
          \<or> (\<exists>m. first_message data = Some m \<and> status m \<noteq> ''complete'')"
        by (cases "first_message data") (simp_all add: is_complete_def)
      with Resolved 1(2) have "f axios_get url ?w1 = Some y"
        by (auto simp add: try_block_def)
      moreover have "requests ?w1 = requests w @ [url]"
        by (simp add: setTimeout_def console_log_def)
      ultimately show ?thesis by blast
    qed
    then obtain w1 where w1: "f axios_get url w1 = Some y" "requests w1 = requests w @ [url]"
      by blast
    from 1(1) [OF w1(1)] obtain n where "is_complete (axios_get url (length (requests w1) + n))"
      by blast
    then have "is_complete (axios_get url (length (requests w) + Suc n))"
      by (simp add: w1(2))
    then show ?thesis by blast
  qed
qed

lemma is_completeD:
  "is_complete outcome
     \<Longrightarrow> \<exists>data m. outcome = Resolved data \<and> first_message data = Some m \<and> status m = ''complete''"
  by (auto simp: is_complete_def split: axios_result.splits option.splits)

lemma poll_loop_first_complete:
  assumes "\<forall>k<n. \<not> is_complete (axios_get url (length (requests w) + k))"
    and "is_complete (axios_get url (length (requests w) + n))"
  shows "\<exists>data m w'. axios_get url (length (requests w) + n) = Resolved data
           \<and> first_message data = Some m \<and> status m = ''complete''
           \<and> poll_loop axios_get url w = Some (m, w')
           \<and> requests w' = requests w @ replicate (Suc n) url
           \<and> slept w' = slept w @ replicate n 5000
           \<and> calls w' = calls w"
proof -
  from is_completeD [OF assms(2)] obtain data m where
    d: "axios_get url (length (requests w) + n) = Resolved data"
      "first_message data = Some m" "status m = ''complete''"
    by blast
  from poll_loop_returns_at [where n = n and axios_get = axios_get and url = url and w = w
      and data = data and m = m] assms(1) d
  show ?thesis
    by blast
qed

lemma poll_loop_None:
  "\<forall>k. \<not> is_complete (axios_get url (length (requests w) + k))
     \<Longrightarrow> poll_loop axios_get url w = None"
  using poll_loop_Some_complete [of axios_get url w] by (cases "poll_loop axios_get url w") auto

lemma poll_loop_Some:
  assumes "poll_loop axios_get url w = Some (m, w')"
  shows "\<exists>n data. (\<forall>k<n. \<not> is_complete (axios_get url (length (requests w) + k)))
           \<and> axios_get url (length (requests w) + n) = Resolved data
           \<and> first_message data = Some m \<and> status m = ''complete''
           \<and> requests w' = requests w @ replicate (Suc n) url
           \<and> slept w' = slept w @ replicate n 5000
           \<and> calls w' = calls w"
proof -
  from poll_loop_Some_complete [OF assms]
  have "\<exists>n. is_complete (axios_get url (length (requests w) + n))" .
  then obtain n where n: "is_complete (axios_get url (length (requests w) + n))"
    "\<forall>k<n. \<not> is_complete (axios_get url (length (requests w) + k))"
    using exists_least_iff [of "\<lambda>n. is_complete (axios_get url (length (requests w) + n))"]
    by blast
  from poll_loop_first_complete [where n = n and axios_get = axios_get and url = url and w = w]
    n assms
  show ?thesis
    by (intro exI [of _ n]) auto
qed

lemma requests_console_log: "requests (console_log line w) = requests w"
  and slept_console_log: "slept (console_log line w) = slept w"
  and calls_console_log: "calls (console_log line w) = calls w"
  by (simp_all add: console_log_def)

section \<open>Claims on the attestation poll\<close>

text \<open>
  Claim C5. When the first message of the service's answer is pending at the first two
  requests and complete at the third, \<open>retrieveAttestation\<close> returns the first message of
  the third answer after exactly three requests (and two delays of 5 seconds).
\<close>

theorem retrieveAttestation_pending_twice:
  assumes "axios_get (iris_url srcTxHash) (length (requests w)) = Resolved d0"
    and "first_message d0 = Some m0" and "status m0 = ''pending''"
    and "axios_get (iris_url srcTxHash) (length (requests w) + 1) = Resolved d1"
    and "first_message d1 = Some m1" and "status m1 = ''pending''"
    and "axios_get (iris_url srcTxHash) (length (requests w) + 2) = Resolved d2"
    and "first_message d2 = Some m2" and "status m2 = ''complete''"
  shows "\<exists>w'. retrieveAttestation axios_get srcTxHash w = Some (m2, w')
           \<and> requests w' = requests w @ [iris_url srcTxHash, iris_url srcTxHash, iris_url srcTxHash]
           \<and> slept w' = slept w @ [5000, 5000]"
proof -
  let ?w = "console_log ''3) Waiting for attestation from Circle Iris...'' w"
  let ?url = "iris_url srcTxHash"
  have "\<not> is_complete (axios_get ?url (length (requests ?w) + k))" if "k < 2" for k
  proof -
    from that have "k = 0 \<or> k = 1" by auto
    then show ?thesis
      using assms(1-6) by (auto simp add: is_complete_def requests_console_log)
  qed
  then have "\<forall>k<2. \<not> is_complete (axios_get ?url (length (requests ?w) + k))"
    by blast
  moreover have "axios_get ?url (length (requests ?w) + 2) = Resolved d2"
    using assms(7) by (simp add: requests_console_log)
  ultimately have "\<exists>w'. poll_loop axios_get ?url ?w = Some (m2, w')
      \<and> requests w' = requests ?w @ replicate (Suc 2) ?url
      \<and> slept w' = slept ?w @ replicate 2 5000 \<and> calls w' = calls ?w"
    using poll_loop_returns_at [where n = 2 and axios_get = axios_get and url = ?url and w = ?w
        and data = d2 and m = m2] assms(8,9)
    by blast
  moreover have "replicate (Suc 2) ?url = [?url, ?url, ?url]"
    and "replicate 2 (5000 :: nat) = [5000, 5000]"
    by (simp_all add: numeral_2_eq_2)
  ultimately show ?thesis
    by (simp only: retrieveAttestation_def requests_console_log slept_console_log) blast
qed

theorem retrieveAttestation_pending_twice_witness:
  "\<exists>w'. retrieveAttestation slow_axios_get ''0xAA'' initial_world = Some (mock_entry, w')
     \<and> requests w' = [iris_url ''0xAA'', iris_url ''0xAA'', iris_url ''0xAA'']
     \<and> slept w' = [5000, 5000]"
proof -
  let ?pending = "Some \<lparr>messages = Some [pending_entry]\<rparr>"
  let ?complete = "Some \<lparr>messages = Some [mock_entry]\<rparr>"
  have 0: "slow_axios_get (iris_url ''0xAA'') (length (requests initial_world)) = Resolved ?pending"
    by (simp add: slow_axios_get_def initial_world_def)
  have 1: "slow_axios_get (iris_url ''0xAA'') (length (requests initial_world) + 1) = Resolved ?pending"
    by (simp add: slow_axios_get_def initial_world_def)
  have 2: "slow_axios_get (iris_url ''0xAA'') (length (requests initial_world) + 2) = Resolved ?complete"
    by (simp add: slow_axios_get_def initial_world_def)
  have p: "first_message ?pending = Some pending_entry" "status pending_entry = ''pending''"
    by (simp_all add: first_message_def pending_entry_def)
  have c: "first_message ?complete = Some mock_entry" "status mock_entry = ''complete''"
    by (simp_all add: first_message_def mock_entry_def)
  show ?thesis
    using retrieveAttestation_pending_twice [where axios_get = slow_axios_get
        and srcTxHash = "''0xAA''" and w = initial_world and ?d0.0 = ?pending and ?d1.0 = ?pending
        and ?d2.0 = ?complete and ?m0.0 = pending_entry and ?m1.0 = pending_entry
        and ?m2.0 = mock_entry] 0 1 2 p c
    by (simp add: initial_world_def)
qed

text \<open>
  Claim C6. \<open>retrieveAttestation\<close> returns only a message whose status is complete: the
  first message of the first answer that has one, after one request for each earlier
  outcome (an error of the request or an answer without a complete first message) and a
  delay of 5000 milliseconds after each of these. No outcome of a request ends the run
  otherwise: when no request ever gets a complete first message, the function does not
  return, and for every number \<open>n\<close> of outcomes that are not complete before the first
  complete one it makes \<open>n + 1\<close> requests and returns.
\<close>

theorem retrieveAttestation_until_complete:
  "(\<forall>m w'. retrieveAttestation axios_get srcTxHash w = Some (m, w') \<longrightarrow>
       status m = ''complete''
     \<and> (\<exists>n data.
           (\<forall>k<n. \<not> is_complete (axios_get (iris_url srcTxHash) (length (requests w) + k)))
         \<and> axios_get (iris_url srcTxHash) (length (requests w) + n) = Resolved data
         \<and> first_message data = Some m
         \<and> requests w' = requests w @ replicate (Suc n) (iris_url srcTxHash)
         \<and> slept w' = slept w @ replicate n 5000))
   \<and> ((\<forall>k. \<not> is_complete (axios_get (iris_url srcTxHash) (length (requests w) + k))) \<longrightarrow>
         retrieveAttestation axios_get srcTxHash w = None)
   \<and> (\<forall>n. (\<forall>k<n. \<not> is_complete (axios_get (iris_url srcTxHash) (length (requests w) + k)))
          \<and> is_complete (axios_get (iris_url srcTxHash) (length (requests w) + n)) \<longrightarrow>
          (\<exists>m w'. retrieveAttestation axios_get srcTxHash w = Some (m, w')
              \<and> requests w' = requests w @ replicate (Suc n) (iris_url srcTxHash)
              \<and> slept w' = slept w @ replicate n 5000))"
proof (intro conjI allI impI)
  fix m w'
  assume "retrieveAttestation axios_get srcTxHash w = Some (m, w')"
  then have r: "poll_loop axios_get (iris_url srcTxHash)
      (console_log ''3) Waiting for attestation from Circle Iris...'' w) = Some (m, w')"
    by (simp add: retrieveAttestation_def)
  from poll_loop_Some [OF r]
  show "status m = ''complete''"
    by blast
  from poll_loop_Some [OF r]
  show "\<exists>n data.
           (\<forall>k<n. \<not> is_complete (axios_get (iris_url srcTxHash) (length (requests w) + k)))
         \<and> axios_get (iris_url srcTxHash) (length (requests w) + n) = Resolved data
         \<and> first_message data = Some m
         \<and> requests w' = requests w @ replicate (Suc n) (iris_url srcTxHash)
         \<and> slept w' = slept w @ replicate n 5000"
    by (simp only: requests_console_log slept_console_log) blast
next
  assume "\<forall>k. \<not> is_complete (axios_get (iris_url srcTxHash) (length (requests w) + k))"
  then show "retrieveAttestation axios_get srcTxHash w = None"
    by (simp add: retrieveAttestation_def poll_loop_None requests_console_log)
next
  fix n
  assume a: "(\<forall>k<n. \<not> is_complete (axios_get (iris_url srcTxHash) (length (requests w) + k)))
          \<and> is_complete (axios_get (iris_url srcTxHash) (length (requests w) + n))"
  let ?w = "console_log ''3) Waiting for attestation from Circle Iris...'' w"
  from a have "\<forall>k<n. \<not> is_complete (axios_get (iris_url srcTxHash) (length (requests ?w) + k))"
    and "is_complete (axios_get (iris_url srcTxHash) (length (requests ?w) + n))"
    by (simp_all add: requests_console_log)
  from poll_loop_first_complete [where n = n and axios_get = axios_get
      and url = "iris_url srcTxHash" and w = ?w, OF this]
  show "\<exists>m w'. retrieveAttestation axios_get srcTxHash w = Some (m, w')
              \<and> requests w' = requests w @ replicate (Suc n) (iris_url srcTxHash)
              \<and> slept w' = slept w @ replicate n 5000"
    by (simp only: retrieveAttestation_def requests_console_log slept_console_log) blast
qed

theorem retrieveAttestation_until_complete_witness:
  "retrieveAttestation down_axios_get ''0xAA'' initial_world = None
   \<and> (\<exists>m w'. retrieveAttestation flaky_axios_get ''0xAA'' initial_world = Some (m, w')
         \<and> status m = ''complete''
         \<and> requests w' = [iris_url ''0xAA'', iris_url ''0xAA'', iris_url ''0xAA'']
         \<and> slept w' = [5000, 5000])"
proof -
  have down: "\<forall>k. \<not> is_complete (down_axios_get (iris_url ''0xAA'') (length (requests initial_world) + k))"
    by (simp add: down_axios_get_def is_complete_def)
  have before: "\<forall>k<2. \<not> is_complete (flaky_axios_get (iris_url ''0xAA'') (length (requests initial_world) + k))"
    by (simp add: flaky_axios_get_def is_complete_def initial_world_def)
  have at: "is_complete (flaky_axios_get (iris_url ''0xAA'') (length (requests initial_world) + 2))"
    by (simp add: flaky_axios_get_def is_complete_def initial_world_def first_message_def mock_entry_def)
  have rep: "replicate (Suc 2) (iris_url ''0xAA'') = [iris_url ''0xAA'', iris_url ''0xAA'', iris_url ''0xAA'']"
    "replicate 2 (5000 :: nat) = [5000, 5000]"
    by (simp_all add: numeral_2_eq_2)
  have init: "requests initial_world = []" "slept initial_world = []"
    by (simp_all add: initial_world_def)
  from retrieveAttestation_until_complete [of down_axios_get "''0xAA''" initial_world] down
  have none: "retrieveAttestation down_axios_get ''0xAA'' initial_world = None"
    by blast
  from retrieveAttestation_until_complete [of flaky_axios_get "''0xAA''" initial_world] before at
  obtain m w' where r: "retrieveAttestation flaky_axios_get ''0xAA'' initial_world = Some (m, w')"
    "requests w' = requests initial_world @ replicate (Suc 2) (iris_url ''0xAA'')"
    "slept w' = slept initial_world @ replicate 2 5000"
    by blast
  from retrieveAttestation_until_complete [of flaky_axios_get "''0xAA''" initial_world] r(1)
  have "status m = ''complete''"
    by blast
  with none r show ?thesis
    by (simp only: rep init append_Nil) blast
qed


section \<open>The four stages in order\<close>

lemma retrieveAttestation_poll_result:
  assumes "retrieveAttestation axios_get srcTxHash w = Some (m, w')"
  shows "status m = ''complete''"
proof -
  from assms have "poll_loop axios_get (iris_url srcTxHash)
      (console_log ''3) Waiting for attestation from Circle Iris...'' w) = Some (m, w')"
    by (simp add: retrieveAttestation_def)
  from poll_loop_Some [OF this] show ?thesis
    by blast
qed

lemma mintUSDC_calls:
  "\<exists>r w'. mintUSDC sendTransaction entry w = (r, w')
     \<and> calls w' = calls w @ [(Sepolia, receiveMessage_tx entry)]"
  by (cases "sendTransaction (length (calls w)) Sepolia (receiveMessage_tx entry)")
    (simp_all add: mintUSDC_def client_send_def console_log_def)

text \<open>
  Claim C8. In a run of \<open>main\<close> whose approval and burn succeed, the poll is made for the
  hash that the burn returned, and the entry it returns is complete. The mint stage then
  hands to the client one transaction, \<open>receiveMessage\<close> on the message transmitter,
  whose two arguments are the \<open>message\<close> and the \<open>attestation\<close> of that entry as they
  are; when the poll never returns, neither does the run.
\<close>

theorem main_mint_receives_polled_entry:
  assumes "approveUSDC sendTransaction (banner cfg w) = (Inr (), wa)"
    and "burnUSDC cfg sendTransaction wa = (Inr burnTx, wb)"
  shows "(retrieveAttestation axios_get burnTx wb = None
            \<longrightarrow> main cfg sendTransaction axios_get w = None)
       \<and> (\<forall>entry wp. retrieveAttestation axios_get burnTx wb = Some (entry, wp) \<longrightarrow>
            status entry = ''complete''
          \<and> (\<exists>r w'. main cfg sendTransaction axios_get w = Some (r, w')
                \<and> calls w' = calls wp
                     @ [(Sepolia,
                         \<lparr>tx_to = MESSAGE_TRANSMITTER_V2,
                          tx_data = EncodeFunctionData ''receiveMessage''
                                      [Bytes (message entry), Bytes (attestation entry)]\<rparr>)]))"
proof (intro conjI allI impI)
  assume "retrieveAttestation axios_get burnTx wb = None"
  with assms show "main cfg sendTransaction axios_get w = None"
    by (simp add: main_def)
next
  fix entry wp
  assume r: "retrieveAttestation axios_get burnTx wb = Some (entry, wp)"
  from retrieveAttestation_poll_result [OF r] show "status entry = ''complete''" .
  from mintUSDC_calls [of sendTransaction entry wp] obtain res w4 where
    m: "mintUSDC sendTransaction entry wp = (res, w4)"
      "calls w4 = calls wp @ [(Sepolia, receiveMessage_tx entry)]"
    by blast
  show "\<exists>r w'. main cfg sendTransaction axios_get w = Some (r, w')
          \<and> calls w' = calls wp
               @ [(Sepolia,
                   \<lparr>tx_to = MESSAGE_TRANSMITTER_V2,
                    tx_data = EncodeFunctionData ''receiveMessage''
                                [Bytes (message entry), Bytes (attestation entry)]\<rparr>)]"
  proof (cases res)
    case (Inl e)
    with assms r m show ?thesis
      by (simp add: main_def receiveMessage_tx_def)
  next
    case (Inr u)
    with assms r m show ?thesis
      by (simp add: main_def receiveMessage_tx_def console_log_def)
  qed
qed

theorem main_mint_receives_polled_entry_witness:
  "\<exists>r w'. main mock_config mock_sendTransaction mock_axios_get initial_world = Some (r, w')
     \<and> last (calls w')
         = (Sepolia,
            \<lparr>tx_to = MESSAGE_TRANSMITTER_V2,
             tx_data = EncodeFunctionData ''receiveMessage'' [Bytes ''0x0102'', Bytes ''0x0304'']\<rparr>)"
proof -
  obtain wa where a: "approveUSDC mock_sendTransaction (banner mock_config initial_world) = (Inr (), wa)"
    by (simp add: approveUSDC_def client_send_def mock_sendTransaction_def)
  obtain wb where b: "burnUSDC mock_config mock_sendTransaction wa = (Inr ''0xAA'', wb)"
    by (simp add: burnUSDC_def client_send_def mock_sendTransaction_def)
  let ?w = "console_log ''3) Waiting for attestation from Circle Iris...'' wb"
  have url: "iris_url ''0xAA''
      = ''https://iris-api-sandbox.circle.com/v2/messages/6?transactionHash=0xAA''"
    by (simp add: iris_url_def BASE_DOMAIN_def)
  have "mock_axios_get (iris_url ''0xAA'') (length (requests ?w))
      = Resolved (Some \<lparr>messages = Some [mock_entry]\<rparr>)"
    by (simp only: url mock_axios_get_def refl if_True)
  moreover have "first_message (Some \<lparr>messages = Some [mock_entry]\<rparr>) = Some mock_entry"
    by (simp add: first_message_def)
  moreover have "status mock_entry = ''complete''"
    by (simp add: mock_entry_def)
  ultimately have "\<exists>wp. retrieveAttestation mock_axios_get ''0xAA'' wb = Some (mock_entry, wp)"
    using poll_loop_return [where axios_get = mock_axios_get and url = "iris_url ''0xAA''"
        and w = ?w and m = mock_entry]
    by (simp only: retrieveAttestation_def) blast
  then obtain wp where p: "retrieveAttestation mock_axios_get ''0xAA'' wb = Some (mock_entry, wp)"
    by blast
  from main_mint_receives_polled_entry [OF a b, of mock_axios_get] p
  obtain r w' where "main mock_config mock_sendTransaction mock_axios_get initial_world = Some (r, w')"
    "calls w' = calls wp
       @ [(Sepolia,
           \<lparr>tx_to = MESSAGE_TRANSMITTER_V2,
            tx_data = EncodeFunctionData ''receiveMessage''
                        [Bytes (message mock_entry), Bytes (attestation mock_entry)]\<rparr>)]"
    by blast
  then show ?thesis
    by (simp add: mock_entry_def)
qed

end
